theory Spec2Isabelle
  imports Main "HOL-Library.Word"
begin

section \<open>The archive rebuild script \<open>fix2.py\<close>\<close>

text \<open>
  The script opens a zip archive for writing and walks a fixed list of relative paths.
  For each path it tests whether the file exists under the template directory, picks a
  compression method from the name, asks the zip writer to add the file under that name
  and prints a line. After the \<open>with\<close> block it prints a completion line.

  The script touches the outside world through three library calls:
  \<open>zipfile.ZipFile(path, 'w')\<close>, \<open>os.path.exists\<close> and \<open>ZipFile.write\<close>, and through
  \<open>print\<close>. The model makes the world explicit (a file tree and the set of output paths
  that can be created) and records what the script does as a list of archive members and
  a list of events in the order they happen.
\<close>

subsection \<open>Data\<close>

type_synonym path = string
type_synonym bytes = "8 word list"

text \<open>What can sit at a path of the source tree. \<open>Unreadable\<close> is a file that is there
  (\<open>os.path.exists\<close> is true) but that cannot be opened for reading.\<close>

datatype node = RegularFile bytes | Directory | Unreadable

record env =
  tree :: "path \<Rightarrow> node option"
  can_create :: "path \<Rightarrow> bool"

text \<open>\<open>zipfile.ZIP_STORED\<close> and \<open>zipfile.ZIP_DEFLATED\<close>.\<close>

datatype compress_type = ZIP_STORED | ZIP_DEFLATED

text \<open>A member of the output archive, as the script asks the zip writer to add it:
  the archive name and the compression method passed to \<open>zf.write\<close>, and the bytes
  taken from the source file. What the zip library then makes of a name (normalising
  separators, marking a directory entry) happens inside the library and is not
  modelled: the archive is the list of the additions the script asked for and the
  writer accepted.\<close>

record member =
  m_name :: string
  m_method :: compress_type
  m_data :: bytes

text \<open>The three kinds of line the script prints.\<close>

datatype line = Warning string | Added string | Done

fun render :: "line \<Rightarrow> string" where
  "render (Warning fname) = ''Warning: '' @ fname @ '' not found''"
| "render (Added fname) = ''Added: '' @ fname"
| "render Done = ''Done! Template recreated with correct file order.''"

text \<open>Everything observable, in order: the archive handle being acquired and released,
  each call of \<open>zf.write(filename, arcname, compress_type)\<close>, and each printed line.\<close>

datatype event =
    ArchiveOpened path
  | ArchiveClosed
  | WriteCall path string compress_type
  | Print line

text \<open>The two places an \<open>OSError\<close> can come from: opening the output archive, and
  reading a source file inside \<open>zf.write\<close>. Each carries the path that failed.\<close>

datatype error = OSError_open path | OSError_read path

record state =
  archive :: "member list"
  trace :: "event list"

definition initial :: state where
  "initial = \<lparr>archive = [], trace = []\<rparr>"

definition emit :: "event \<Rightarrow> state \<Rightarrow> state" where
  "emit e st = st\<lparr>trace := trace st @ [e]\<rparr>"

subsection \<open>The constants of the script\<close>




subsection \<open>Library calls\<close>

text \<open>\<open>os.path.join(a, b)\<close> on a POSIX system: an absolute \<open>b\<close> replaces \<open>a\<close>; otherwise
  the two are joined with one slash unless \<open>a\<close> is empty or already ends in one.\<close>

definition os_path_join :: "path \<Rightarrow> path \<Rightarrow> path" where
  "os_path_join a b =
     (if take 1 b = ''/'' then b
      else if a = [] \<or> last a = CHR ''/'' then a @ b
      else a @ ''/'' @ b)"

text \<open>\<open>os.path.exists\<close>: true for whatever is at the path, file or not.\<close>

definition os_path_exists :: "env \<Rightarrow> path \<Rightarrow> bool" where
  "os_path_exists e p = (tree e p \<noteq> None)"

text \<open>\<open>s.endswith(suf)\<close>.\<close>

definition endswith :: "string \<Rightarrow> string \<Rightarrow> bool" where
  "endswith s suf = (length suf \<le> length s \<and> drop (length s - length suf) s = suf)"

text \<open>\<open>zf.write(filename, arcname, compress_type)\<close>: the call is recorded, then the source
  is read. A source that cannot be read raises and leaves the archive as it was;
  otherwise one member is appended, under the name and method the script passed.
  A directory is accepted by the writer as well, and carries no bytes.\<close>

definition zf_write :: "env \<Rightarrow> path \<Rightarrow> string \<Rightarrow> compress_type \<Rightarrow> state \<Rightarrow> error option \<times> state" where
  "zf_write e filename arcname compress st =
     (let st1 = emit (WriteCall filename arcname compress) st in
      case tree e filename of
        Some (RegularFile bs) \<Rightarrow>
          (None, st1\<lparr>archive := archive st1 @ [\<lparr>m_name = arcname, m_method = compress, m_data = bs\<rparr>]\<rparr>)
      | Some Directory \<Rightarrow>
          (None, st1\<lparr>archive := archive st1 @ [\<lparr>m_name = arcname, m_method = compress, m_data = []\<rparr>]\<rparr>)
      | Some Unreadable \<Rightarrow> (Some (OSError_read filename), st1)
      | None \<Rightarrow> (Some (OSError_read filename), st1))"


subsection \<open>The script\<close>

text \<open>The compression choice of the loop body.\<close>

definition compress_for :: "string \<Rightarrow> compress_type" where
  "compress_for fname =
     (if fname = ''mimetype'' \<or> endswith fname ''.png'' then ZIP_STORED else ZIP_DEFLATED)"

text \<open>The \<open>for fname in FILE_ORDER\<close> loop. The result is the exception that left the
  loop, if any, and the state reached.\<close>

fun add_entries :: "env \<Rightarrow> path \<Rightarrow> string list \<Rightarrow> state \<Rightarrow> error option \<times> state" where
  "add_entries e root [] st = (None, st)"
| "add_entries e root (fname # rest) st =
     (let full_path = os_path_join root fname in
      if \<not> os_path_exists e full_path then
        add_entries e root rest (emit (Print (Warning fname)) st)
      else
        (case zf_write e full_path fname (compress_for fname) st of
           (Some err, st') \<Rightarrow> (Some err, st')
         | (None, st') \<Rightarrow> add_entries e root rest (emit (Print (Added fname)) st')))"

text \<open>The whole run. Opening the archive may raise, before anything else happens.
  Leaving the \<open>with\<close> block closes the archive, with or without an exception; the
  completion line is printed only when no exception left the block.\<close>

definition rebuild :: "env \<Rightarrow> path \<Rightarrow> path \<Rightarrow> string list \<Rightarrow> error option \<times> state" where
  "rebuild e root output manifest =
     (if \<not> can_create e output then (Some (OSError_open output), initial)
      else
        (case add_entries e root manifest (emit (ArchiveOpened output) initial) of
           (Some err, st) \<Rightarrow> (Some err, emit ArchiveClosed st)
         | (None, st) \<Rightarrow> (None, emit (Print Done) (emit ArchiveClosed st))))"


subsection \<open>Vocabulary for the statements\<close>

text \<open>An entry is present when the existence test of the loop succeeds for it, and
  readable unless an unreadable file sits at its path.\<close>

definition present :: "env \<Rightarrow> path \<Rightarrow> string \<Rightarrow> bool" where
  "present e root fname = os_path_exists e (os_path_join root fname)"

definition readable :: "env \<Rightarrow> path \<Rightarrow> string \<Rightarrow> bool" where
  "readable e root fname = (tree e (os_path_join root fname) \<noteq> Some Unreadable)"

text \<open>The bytes at a path: those of a regular file, none for anything else.\<close>

definition contents :: "env \<Rightarrow> path \<Rightarrow> bytes" where
  "contents e p = (case tree e p of Some (RegularFile bs) \<Rightarrow> bs | _ \<Rightarrow> [])"

text \<open>The member a present, readable entry ends up as.\<close>

definition member_of :: "env \<Rightarrow> path \<Rightarrow> string \<Rightarrow> member" where
  "member_of e root fname =
     \<lparr>m_name = fname, m_method = compress_for fname,
      m_data = contents e (os_path_join root fname)\<rparr>"

text \<open>The events of one pass through the loop body that does not raise.\<close>

definition entry_events :: "env \<Rightarrow> path \<Rightarrow> string \<Rightarrow> event list" where
  "entry_events e root fname =
     (if present e root fname
      then [WriteCall (os_path_join root fname) fname (compress_for fname), Print (Added fname)]
      else [Print (Warning fname)])"

text \<open>The entries the loop passes without raising, and the entry it raises on, if any.\<close>

definition passed :: "env \<Rightarrow> path \<Rightarrow> string list \<Rightarrow> string list" where
  "passed e root manifest = takeWhile (readable e root) manifest"

definition failing :: "env \<Rightarrow> path \<Rightarrow> string list \<Rightarrow> string option" where
  "failing e root manifest =
     (case dropWhile (readable e root) manifest of [] \<Rightarrow> None | fname # _ \<Rightarrow> Some fname)"

text \<open>Names and methods of the members, in order: the structure of an archive.\<close>

definition names :: "state \<Rightarrow> string list" where
  "names st = map m_name (archive st)"

definition layout :: "state \<Rightarrow> (string \<times> compress_type) list" where
  "layout st = map (\<lambda>m. (m_name m, m_method m)) (archive st)"

text \<open>The archive handle, read off a trace: not yet acquired, held, or released.\<close>

datatype handle = NotStarted | InProgress | Closed

fun handle_step :: "handle \<Rightarrow> event \<Rightarrow> handle" where
  "handle_step h (ArchiveOpened p) = InProgress"
| "handle_step h ArchiveClosed = Closed"
| "handle_step h (WriteCall p a c) = h"
| "handle_step h (Print l) = h"

definition handle_after :: "event list \<Rightarrow> handle" where
  "handle_after tr = foldl handle_step NotStarted tr"

text \<open>The entries warned about, in the order of the warnings.\<close>

fun warnings :: "event list \<Rightarrow> string list" where
  "warnings [] = []"
| "warnings (Print (Warning fname) # tr) = fname # warnings tr"
| "warnings (ev # tr) = warnings tr"

text \<open>What sits at a path, with the bytes of a file forgotten.\<close>

fun kind :: "node option \<Rightarrow> node option" where
  "kind (Some (RegularFile bs)) = Some (RegularFile [])"
| "kind other = other"

subsection \<open>Sample worlds\<close>

text \<open>The scenario of the specification: three of four entries are there.\<close>

definition scenario_manifest :: "string list" where
  "scenario_manifest = [''mimetype'', ''a.xml'', ''img.png'', ''missing.xml'']"

definition scenario_env :: env where
  "scenario_env =
     \<lparr>tree = [''src/mimetype'' \<mapsto> RegularFile [1, 2],
              ''src/a.xml'' \<mapsto> RegularFile [3],
              ''src/img.png'' \<mapsto> RegularFile [4, 5, 6]],
      can_create = (\<lambda>p. p = ''out.hwpx'')\<rparr>"

text \<open>The same tree with other bytes in every file.\<close>

definition scenario_env2 :: env where
  "scenario_env2 =
     \<lparr>tree = [''src/mimetype'' \<mapsto> RegularFile [7],
              ''src/a.xml'' \<mapsto> RegularFile [],
              ''src/img.png'' \<mapsto> RegularFile [8, 9]],
      can_create = (\<lambda>p. p = ''out.hwpx'')\<rparr>"

text \<open>A tree whose first entry cannot be read, followed by a good file and a
  missing one.\<close>

definition locked_manifest :: "string list" where
  "locked_manifest = [''a'', ''b'', ''c'']"

definition locked_env :: env where
  "locked_env =
     \<lparr>tree = [''src/a'' \<mapsto> Unreadable, ''src/b'' \<mapsto> RegularFile [1, 2]],
      can_create = (\<lambda>p. p = ''out.hwpx'')\<rparr>"

text \<open>A tree with a directory where an entry is expected.\<close>

definition dir_env :: env where
  "dir_env =
     \<lparr>tree = [''src/mimetype'' \<mapsto> RegularFile [1], ''src/version.xml'' \<mapsto> Directory],
      can_create = (\<lambda>p. p = ''out.hwpx'')\<rparr>"


section \<open>What a run does\<close>

subsection \<open>The loop, entry by entry\<close>

text \<open>A warning line names its entry: two entries never share one.\<close>

lemma render_Warning_inj: "render (Warning f) = render (Warning g) \<Longrightarrow> f = g"
  by simp

lemma emit_simps: "archive (emit ev st) = archive st" "trace (emit ev st) = trace st @ [ev]"
  by (simp_all add: emit_def)


lemma zf_write_cases:
  "zf_write e p a c st =
     (if tree e p = None \<or> tree e p = Some Unreadable
      then (Some (OSError_read p), emit (WriteCall p a c) st)
      else (None, (emit (WriteCall p a c) st)
              \<lparr>archive := archive st @ [\<lparr>m_name = a, m_method = c, m_data = contents e p\<rparr>]\<rparr>))"
  by (simp add: zf_write_def contents_def emit_def Let_def split: option.splits node.splits)

lemma add_entries_missing:
  "\<not> present e root f \<Longrightarrow>
     add_entries e root (f # rest) st = add_entries e root rest (emit (Print (Warning f)) st)"
  by (simp add: present_def)

lemma add_entries_unreadable:
  "\<not> readable e root f \<Longrightarrow>
     add_entries e root (f # rest) st =
       (Some (OSError_read (os_path_join root f)),
        emit (WriteCall (os_path_join root f) f (compress_for f)) st)"
  by (simp add: readable_def os_path_exists_def zf_write_cases Let_def)

lemma add_entries_ok:
  assumes "present e root f" and "readable e root f"
  shows "add_entries e root (f # rest) st =
       add_entries e root rest
         (emit (Print (Added f)) ((emit (WriteCall (os_path_join root f) f (compress_for f)) st)
            \<lparr>archive := archive st @ [member_of e root f]\<rparr>))"
proof -
  have ex: "os_path_exists e (os_path_join root f)"
    using assms(1) by (simp add: present_def)
  have ok: "\<not> (tree e (os_path_join root f) = None \<or> tree e (os_path_join root f) = Some Unreadable)"
    using assms by (simp add: present_def readable_def os_path_exists_def)
  show ?thesis
    by (simp add: ex zf_write_cases ok member_of_def Let_def)
qed

lemma add_entries_fst:
  "fst (add_entries e root M st) = map_option (\<lambda>f. OSError_read (os_path_join root f)) (failing e root M)"
proof (induction M arbitrary: st)
  case Nil
  show ?case by (simp add: failing_def)
next
  case (Cons f M)
  show ?case
  proof (cases "readable e root f")
    case False
    then show ?thesis by (simp add: add_entries_unreadable failing_def del: add_entries.simps)
  next
    case True
    have fl: "failing e root (f # M) = failing e root M" using True by (simp add: failing_def)
    show ?thesis
    proof (cases "present e root f")
      case True
      with \<open>readable e root f\<close> show ?thesis by (simp add: add_entries_ok Cons.IH fl del: add_entries.simps)
    next
      case False
      then show ?thesis by (simp add: add_entries_missing Cons.IH fl del: add_entries.simps)
    qed
  qed
qed

lemma add_entries_archive:
  "archive (snd (add_entries e root M st)) =
     archive st @ map (member_of e root) (filter (present e root) (passed e root M))"
proof (induction M arbitrary: st)
  case Nil
  show ?case by (simp add: passed_def)
next
  case (Cons f M)
  show ?case
  proof (cases "readable e root f")
    case False
    then show ?thesis by (simp add: add_entries_unreadable passed_def emit_simps del: add_entries.simps)
  next
    case True
    have fl: "passed e root (f # M) = f # passed e root M" using True by (simp add: passed_def)
    show ?thesis
    proof (cases "present e root f")
      case True
      with \<open>readable e root f\<close> show ?thesis by (simp add: add_entries_ok Cons.IH fl emit_simps del: add_entries.simps)
    next
      case False
      then show ?thesis by (simp add: add_entries_missing Cons.IH fl emit_simps del: add_entries.simps)
    qed
  qed
qed

lemma add_entries_trace:
  "trace (snd (add_entries e root M st)) =
     trace st @ concat (map (entry_events e root) (passed e root M)) @
       (case failing e root M of None \<Rightarrow> []
        | Some f \<Rightarrow> [WriteCall (os_path_join root f) f (compress_for f)])"
proof (induction M arbitrary: st)
  case Nil
  show ?case by (simp add: passed_def failing_def)
next
  case (Cons f M)
  show ?case
  proof (cases "readable e root f")
    case False
    then show ?thesis by (simp add: add_entries_unreadable passed_def failing_def emit_simps del: add_entries.simps)
  next
    case True
    have fl: "passed e root (f # M) = f # passed e root M" "failing e root (f # M) = failing e root M"
      using True by (simp_all add: passed_def failing_def)
    show ?thesis
    proof (cases "present e root f")
      case True
      with \<open>readable e root f\<close> show ?thesis
        by (simp add: add_entries_ok Cons.IH fl emit_simps entry_events_def del: add_entries.simps)
    next
      case False
      then show ?thesis by (simp add: add_entries_missing Cons.IH fl emit_simps entry_events_def del: add_entries.simps)
    qed
  qed
qed

lemma rebuild_fst:
  "fst (rebuild e root out M) =
     (if can_create e out
      then map_option (\<lambda>f. OSError_read (os_path_join root f)) (failing e root M)
      else Some (OSError_open out))"
proof (cases "add_entries e root M (emit (ArchiveOpened out) initial)")
  case (Pair r st)
  then have "r = map_option (\<lambda>f. OSError_read (os_path_join root f)) (failing e root M)"
    using add_entries_fst [of e root M "emit (ArchiveOpened out) initial"] by simp
  with Pair show ?thesis
    by (simp add: rebuild_def split: option.splits)
qed

lemma rebuild_archive:
  "archive (snd (rebuild e root out M)) =
     (if can_create e out
      then map (member_of e root) (filter (present e root) (passed e root M))
      else [])"
proof (cases "add_entries e root M (emit (ArchiveOpened out) initial)")
  case (Pair r st)
  then have "archive st = map (member_of e root) (filter (present e root) (passed e root M))"
    using add_entries_archive [of e root M "emit (ArchiveOpened out) initial"]
    by (simp add: emit_simps initial_def)
  with Pair show ?thesis
    by (simp add: rebuild_def emit_simps initial_def split: option.splits)
qed

lemma rebuild_trace:
  "trace (snd (rebuild e root out M)) =
     (if can_create e out
      then ArchiveOpened out # concat (map (entry_events e root) (passed e root M)) @
           (case failing e root M of
              None \<Rightarrow> [ArchiveClosed, Print Done]
            | Some f \<Rightarrow> [WriteCall (os_path_join root f) f (compress_for f), ArchiveClosed])
      else [])"
proof (cases "add_entries e root M (emit (ArchiveOpened out) initial)")
  case (Pair r st)
  then have r: "r = map_option (\<lambda>f. OSError_read (os_path_join root f)) (failing e root M)"
    using add_entries_fst [of e root M "emit (ArchiveOpened out) initial"] by simp
  from Pair have "trace st = ArchiveOpened out # concat (map (entry_events e root) (passed e root M)) @
       (case failing e root M of None \<Rightarrow> []
        | Some f \<Rightarrow> [WriteCall (os_path_join root f) f (compress_for f)])"
    using add_entries_trace [of e root M "emit (ArchiveOpened out) initial"]
    by (simp add: emit_simps initial_def)
  with Pair r show ?thesis
    by (simp add: rebuild_def emit_simps initial_def split: option.splits)
qed

lemma failing_None_iff: "failing e root M = None \<longleftrightarrow> (\<forall>f\<in>set M. readable e root f)"
  by (induction M) (simp_all add: failing_def)

lemma passed_complete: "failing e root M = None \<Longrightarrow> passed e root M = M"
  by (simp add: failing_None_iff passed_def)

lemma completes_iff:
  "fst (rebuild e root out M) = None \<longleftrightarrow> can_create e out \<and> failing e root M = None"
  by (simp add: rebuild_fst)

lemma set_passed: "set (passed e root M) \<subseteq> set M"
  unfolding passed_def by (meson set_takeWhileD subsetI)

lemma names_rebuild:
  "names (snd (rebuild e root out M)) =
     (if can_create e out then filter (present e root) (passed e root M) else [])"
  by (simp add: names_def rebuild_archive member_of_def comp_def)

lemma failing_SomeD:
  "failing e root M = Some f \<Longrightarrow> f \<in> set M \<and> \<not> readable e root f"
proof -
  assume a: "failing e root M = Some f"
  then obtain rest where d: "dropWhile (readable e root) M = f # rest"
    by (auto simp: failing_def split: list.splits)
  then have "f \<in> set (dropWhile (readable e root) M)" by simp
  then have "f \<in> set M" by (rule set_dropWhileD)
  moreover have "\<not> readable e root f"
    using d by (metis hd_dropWhile list.sel(1) list.distinct(1))
  ultimately show ?thesis by simp
qed

subsection \<open>The sample runs, evaluated\<close>

lemmas run_defs =
  rebuild_def zf_write_def emit_def initial_def os_path_exists_def
  os_path_join_def compress_for_def endswith_def Let_def

lemma scenario_run:
  "rebuild scenario_env ''src'' ''out.hwpx'' scenario_manifest =
     (None,
      \<lparr>archive =
         [\<lparr>m_name = ''mimetype'', m_method = ZIP_STORED, m_data = [1, 2]\<rparr>,
          \<lparr>m_name = ''a.xml'', m_method = ZIP_DEFLATED, m_data = [3]\<rparr>,
          \<lparr>m_name = ''img.png'', m_method = ZIP_STORED, m_data = [4, 5, 6]\<rparr>],
       trace =
         [ArchiveOpened ''out.hwpx'',
          WriteCall ''src/mimetype'' ''mimetype'' ZIP_STORED, Print (Added ''mimetype''),
          WriteCall ''src/a.xml'' ''a.xml'' ZIP_DEFLATED, Print (Added ''a.xml''),
          WriteCall ''src/img.png'' ''img.png'' ZIP_STORED, Print (Added ''img.png''),
          Print (Warning ''missing.xml''), ArchiveClosed, Print Done]\<rparr>)"
  by (simp add: run_defs scenario_env_def scenario_manifest_def)

lemma locked_run:
  "rebuild locked_env ''src'' ''out.hwpx'' locked_manifest =
     (Some (OSError_read ''src/a''),
      \<lparr>archive = [],
       trace = [ArchiveOpened ''out.hwpx'', WriteCall ''src/a'' ''a'' ZIP_DEFLATED,
                ArchiveClosed]\<rparr>)"
  by (simp add: run_defs locked_env_def locked_manifest_def)


lemma scenario_present:
  "present scenario_env ''src'' ''mimetype''" "present scenario_env ''src'' ''a.xml''"
  "present scenario_env ''src'' ''img.png''" "\<not> present scenario_env ''src'' ''missing.xml''"
  by (simp_all add: present_def os_path_exists_def os_path_join_def scenario_env_def)



lemma scenario_can_create: "can_create scenario_env ''out.hwpx''"
  by (simp add: scenario_env_def)

lemma locked_can_create: "can_create locked_env ''out.hwpx''" "\<not> can_create locked_env ''no/out.hwpx''"
  by (simp_all add: locked_env_def)

section \<open>The claims\<close>

subsection \<open>C1: the member list\<close>




subsection \<open>C2: the compression rule\<close>





subsection \<open>C3: a missing source file\<close>

lemma warnings_append: "warnings (xs @ ys) = warnings xs @ warnings ys"
  by (induction xs rule: warnings.induct) simp_all

lemma warnings_entries:
  "warnings (concat (map (entry_events e root) fs)) = filter (\<lambda>f. \<not> present e root f) fs"
  by (induction fs) (simp_all add: warnings_append entry_events_def)

lemma warnings_rebuild:
  "warnings (trace (snd (rebuild e root out M))) =
     (if can_create e out then filter (\<lambda>f. \<not> present e root f) (passed e root M) else [])"
  by (simp add: rebuild_trace warnings_append warnings_entries split: option.splits)

lemma count_list_filter_True: "P x \<Longrightarrow> count_list (filter P xs) x = count_list xs x"
  by (induction xs) auto

lemma unreadable_present: "\<not> readable e root f \<Longrightarrow> present e root f"
  by (simp add: readable_def present_def os_path_exists_def)

text \<open>
  C3. When the source of a manifest entry does not exist, the loop adds exactly one
  warning naming the entry to the output, leaves the archive untouched and goes on with
  the entries after it. Over a whole run: the entry never becomes a member, it is never
  the cause of the fatal error, and the run warns about it once for each time the loop
  comes to it, which in a completed run is once for each time the manifest lists it.
\<close>

theorem C3_missing_entry_skipped:
  assumes "\<not> present e root f"
  shows "add_entries e root (f # rest) st =
           add_entries e root rest (st\<lparr>trace := trace st @ [Print (Warning f)]\<rparr>) \<and>
         f \<notin> set (names (snd (rebuild e root out M))) \<and>
         fst (rebuild e root out M) \<noteq> Some (OSError_read (os_path_join root f)) \<and>
         (can_create e out \<longrightarrow>
            count_list (warnings (trace (snd (rebuild e root out M)))) f =
              count_list (passed e root M) f) \<and>
         (fst (rebuild e root out M) = None \<longrightarrow>
            count_list (warnings (trace (snd (rebuild e root out M)))) f = count_list M f)"
proof (intro conjI impI)
  show "add_entries e root (f # rest) st =
          add_entries e root rest (st\<lparr>trace := trace st @ [Print (Warning f)]\<rparr>)"
    using assms by (simp add: add_entries_missing emit_def del: add_entries.simps)
  show "f \<notin> set (names (snd (rebuild e root out M)))"
    using assms by (simp add: names_rebuild)
  show "fst (rebuild e root out M) \<noteq> Some (OSError_read (os_path_join root f))"
  proof
    assume "fst (rebuild e root out M) = Some (OSError_read (os_path_join root f))"
    then obtain g where g: "failing e root M = Some g" "os_path_join root g = os_path_join root f"
      by (auto simp: rebuild_fst split: if_splits)
    then have "\<not> readable e root g" by (simp add: failing_SomeD)
    then have "present e root g" by (rule unreadable_present)
    with g(2) have "present e root f" by (simp add: present_def)
    with assms show False by simp
  qed
  show w: "count_list (warnings (trace (snd (rebuild e root out M)))) f =
          count_list (passed e root M) f" if "can_create e out"
    using that assms by (simp add: warnings_rebuild count_list_filter_True)
  show "count_list (warnings (trace (snd (rebuild e root out M)))) f = count_list M f"
    if "fst (rebuild e root out M) = None"
    using that w by (simp add: completes_iff passed_complete)
qed

theorem C3_missing_entry_skipped_witness:
  "\<not> present scenario_env ''src'' ''missing.xml'' \<and>
   add_entries scenario_env ''src'' [''missing.xml'', ''a.xml''] initial =
     add_entries scenario_env ''src'' [''a.xml'']
       (initial\<lparr>trace := trace initial @ [Print (Warning ''missing.xml'')]\<rparr>) \<and>
   ''missing.xml'' \<notin> set (names (snd (rebuild scenario_env ''src'' ''out.hwpx'' scenario_manifest))) \<and>
   fst (rebuild scenario_env ''src'' ''out.hwpx'' scenario_manifest) = None \<and>
   can_create scenario_env ''out.hwpx'' \<and>
   warnings (trace (snd (rebuild scenario_env ''src'' ''out.hwpx'' scenario_manifest))) =
     [''missing.xml''] \<and>
   count_list scenario_manifest ''missing.xml'' = 1"
  using C3_missing_entry_skipped [of scenario_env "''src''" "''missing.xml''" "[''a.xml'']" initial
          "''out.hwpx''" scenario_manifest]
  unfolding scenario_run
  by (simp add: scenario_present scenario_can_create scenario_manifest_def names_def
      del: add_entries.simps)

subsection \<open>C4: members and the manifest\<close>







subsection \<open>C5: the archive handle\<close>

lemma handle_entries:
  "foldl handle_step h (concat (map (entry_events e root) fs)) = h"
  by (induction fs) (simp_all add: entry_events_def)

lemma closed_entries:
  "count_list (concat (map (entry_events e root) fs)) ArchiveClosed = 0"
  by (induction fs) (simp_all add: entry_events_def)

lemma opened_entries:
  "count_list (concat (map (entry_events e root) fs)) (ArchiveOpened p) = 0"
  by (induction fs) (simp_all add: entry_events_def)

text \<open>
  C5. No run ends with the archive handle held. A run that acquired the handle, whether
  it goes on to complete or is cut short by a read failure, releases it: the handle is
  acquired once and released once, and the trace ends with it closed. A run that could
  not open the archive never held a handle, and releases none.
\<close>

theorem C5_archive_closed_once:
  "handle_after (trace (snd (rebuild e root out M))) \<noteq> InProgress \<and>
   (can_create e out \<longrightarrow>
      handle_after (trace (snd (rebuild e root out M))) = Closed \<and>
      count_list (trace (snd (rebuild e root out M))) (ArchiveOpened out) = 1 \<and>
      count_list (trace (snd (rebuild e root out M))) ArchiveClosed = 1) \<and>
   (\<not> can_create e out \<longrightarrow>
      handle_after (trace (snd (rebuild e root out M))) = NotStarted \<and>
      count_list (trace (snd (rebuild e root out M))) ArchiveClosed = 0)"
proof -
  have a: "handle_after (trace (snd (rebuild e root out M))) = Closed" if "can_create e out"
    using that
    by (simp add: rebuild_trace handle_after_def handle_entries split: option.splits)
  have b: "count_list (trace (snd (rebuild e root out M))) ArchiveClosed = 1" if "can_create e out"
    using that
    by (simp add: rebuild_trace closed_entries split: option.splits)
  have c: "count_list (trace (snd (rebuild e root out M))) (ArchiveOpened out) = 1"
    if "can_create e out"
    using that
    by (simp add: rebuild_trace opened_entries split: option.splits)
  have d: "trace (snd (rebuild e root out M)) = []" if "\<not> can_create e out"
    using that by (simp add: rebuild_trace)
  show ?thesis
    using a b c d by (cases "can_create e out") (simp_all add: handle_after_def)
qed

theorem C5_archive_closed_once_witness:
  "can_create scenario_env ''out.hwpx'' \<and>
   fst (rebuild scenario_env ''src'' ''out.hwpx'' scenario_manifest) = None \<and>
   handle_after (trace (snd (rebuild scenario_env ''src'' ''out.hwpx'' scenario_manifest))) = Closed \<and>
   can_create locked_env ''out.hwpx'' \<and>
   fst (rebuild locked_env ''src'' ''out.hwpx'' locked_manifest) = Some (OSError_read ''src/a'') \<and>
   handle_after (trace (snd (rebuild locked_env ''src'' ''out.hwpx'' locked_manifest))) = Closed \<and>
   count_list (trace (snd (rebuild locked_env ''src'' ''out.hwpx'' locked_manifest))) ArchiveClosed = 1 \<and>
   \<not> can_create locked_env ''no/out.hwpx'' \<and>
   handle_after (trace (snd (rebuild locked_env ''src'' ''no/out.hwpx'' locked_manifest))) = NotStarted"
  using C5_archive_closed_once [of scenario_env "''src''" "''out.hwpx''" scenario_manifest]
    C5_archive_closed_once [of locked_env "''src''" "''out.hwpx''" locked_manifest]
    C5_archive_closed_once [of locked_env "''src''" "''no/out.hwpx''" locked_manifest]
  by (simp add: scenario_can_create locked_can_create scenario_run locked_run)

subsection \<open>C6: the completion notice\<close>

lemma done_entries: "Print Done \<notin> set (concat (map (entry_events e root) fs))"
  by (induction fs) (simp_all add: entry_events_def)

lemma done_count_entries:
  "count_list (concat (map (entry_events e root) fs)) (Print Done) = 0"
  by (induction fs) (simp_all add: entry_events_def)

lemma unreadable_fails:
  assumes "f \<in> set M" and "tree e (os_path_join root f) = Some Unreadable"
  shows "\<exists>g\<in>set M. failing e root M = Some g"
proof -
  have "\<not> (\<forall>f\<in>set M. readable e root f)"
    using assms by (auto simp: readable_def)
  then have "failing e root M \<noteq> None" by (simp add: failing_None_iff)
  then obtain g where "failing e root M = Some g" by auto
  then show ?thesis using failing_SomeD by blast
qed

lemma locked_tree: "tree locked_env (os_path_join ''src'' ''a'') = Some Unreadable"
  by (simp add: locked_env_def os_path_join_def)

text \<open>
  C6. The completion line is printed exactly when the run ends without a fatal error,
  and then once: it is the last event, after the archive was closed and after the events
  of every manifest entry, in manifest order. When the archive could be opened and the
  source of some entry cannot be read, the run ends with the read error of a manifest
  entry and no completion line is printed.
\<close>

theorem C6_completion_notice:
  "(Print Done \<in> set (trace (snd (rebuild e root out M))) \<longleftrightarrow>
      fst (rebuild e root out M) = None) \<and>
   count_list (trace (snd (rebuild e root out M))) (Print Done) =
      (if fst (rebuild e root out M) = None then 1 else 0) \<and>
   (fst (rebuild e root out M) = None \<longrightarrow>
      trace (snd (rebuild e root out M)) =
        ArchiveOpened out # concat (map (entry_events e root) M) @ [ArchiveClosed, Print Done]) \<and>
   (can_create e out \<longrightarrow>
      (\<forall>f\<in>set M. tree e (os_path_join root f) = Some Unreadable \<longrightarrow>
         (\<exists>g\<in>set M. fst (rebuild e root out M) = Some (OSError_read (os_path_join root g))) \<and>
         Print Done \<notin> set (trace (snd (rebuild e root out M)))))"
proof (intro conjI impI ballI)
  show iff: "Print Done \<in> set (trace (snd (rebuild e root out M))) \<longleftrightarrow>
      fst (rebuild e root out M) = None"
    using done_entries [of e root "passed e root M"]
    by (auto simp: rebuild_trace rebuild_fst split: option.splits)
  show "count_list (trace (snd (rebuild e root out M))) (Print Done) =
      (if fst (rebuild e root out M) = None then 1 else 0)"
    by (simp add: rebuild_trace rebuild_fst done_count_entries split: option.splits)
  show "trace (snd (rebuild e root out M)) =
        ArchiveOpened out # concat (map (entry_events e root) M) @ [ArchiveClosed, Print Done]"
    if "fst (rebuild e root out M) = None"
    using that by (simp add: completes_iff rebuild_trace passed_complete)
  fix f assume c: "can_create e out" and f: "f \<in> set M"
    and u: "tree e (os_path_join root f) = Some Unreadable"
  from f u obtain g where g: "g \<in> set M" "failing e root M = Some g"
    using unreadable_fails by blast
  with c have r: "fst (rebuild e root out M) = Some (OSError_read (os_path_join root g))"
    by (simp add: rebuild_fst)
  with g(1) show "\<exists>g\<in>set M. fst (rebuild e root out M) = Some (OSError_read (os_path_join root g))"
    by blast
  from r iff show "Print Done \<notin> set (trace (snd (rebuild e root out M)))" by simp
qed

theorem C6_completion_notice_witness:
  "fst (rebuild scenario_env ''src'' ''out.hwpx'' scenario_manifest) = None \<and>
   count_list (trace (snd (rebuild scenario_env ''src'' ''out.hwpx'' scenario_manifest))) (Print Done) = 1 \<and>
   last (trace (snd (rebuild scenario_env ''src'' ''out.hwpx'' scenario_manifest))) = Print Done \<and>
   can_create locked_env ''out.hwpx'' \<and> ''a'' \<in> set locked_manifest \<and>
   tree locked_env (os_path_join ''src'' ''a'') = Some Unreadable \<and>
   fst (rebuild locked_env ''src'' ''out.hwpx'' locked_manifest) = Some (OSError_read ''src/a'') \<and>
   Print Done \<notin> set (trace (snd (rebuild locked_env ''src'' ''out.hwpx'' locked_manifest)))"
  using C6_completion_notice [of scenario_env "''src''" "''out.hwpx''" scenario_manifest]
    C6_completion_notice [of locked_env "''src''" "''out.hwpx''" locked_manifest]
  unfolding scenario_run locked_run
  by (simp add: locked_can_create locked_tree locked_manifest_def)

subsection \<open>C7: an output that cannot be opened\<close>

text \<open>
  C7. When the output archive cannot be created, the run ends with the error of the open
  call: no member was written and nothing was printed or attempted before it.
\<close>

theorem C7_open_failure:
  assumes "\<not> can_create e out"
  shows "rebuild e root out M = (Some (OSError_open out), \<lparr>archive = [], trace = []\<rparr>)"
  using assms by (simp add: rebuild_def initial_def)

theorem C7_open_failure_witness:
  "\<not> can_create locked_env ''no/out.hwpx'' \<and>
   rebuild locked_env ''src'' ''no/out.hwpx'' locked_manifest =
     (Some (OSError_open ''no/out.hwpx''), \<lparr>archive = [], trace = []\<rparr>)"
  using C7_open_failure [of locked_env "''no/out.hwpx''" "''src''" locked_manifest]
  by (simp add: locked_can_create)

subsection \<open>C8: two runs\<close>

lemma kind_None: "kind a = kind b \<Longrightarrow> (a = None) = (b = None)"
  by (cases a rule: kind.cases; cases b rule: kind.cases) simp_all

lemma kind_Unreadable: "kind a = kind b \<Longrightarrow> (a = Some Unreadable) = (b = Some Unreadable)"
  by (cases a rule: kind.cases; cases b rule: kind.cases) simp_all

lemma layout_rebuild:
  "layout (snd (rebuild e root out M)) =
     (if can_create e out
      then map (\<lambda>f. (f, compress_for f)) (filter (present e root) (passed e root M))
      else [])"
  by (simp add: layout_def rebuild_archive member_of_def comp_def)

lemma scenario_kinds:
  "kind (tree scenario_env (os_path_join ''src'' ''mimetype'')) =
     kind (tree scenario_env2 (os_path_join ''src'' ''mimetype''))"
  "kind (tree scenario_env (os_path_join ''src'' ''a.xml'')) =
     kind (tree scenario_env2 (os_path_join ''src'' ''a.xml''))"
  "kind (tree scenario_env (os_path_join ''src'' ''img.png'')) =
     kind (tree scenario_env2 (os_path_join ''src'' ''img.png''))"
  "kind (tree scenario_env (os_path_join ''src'' ''missing.xml'')) =
     kind (tree scenario_env2 (os_path_join ''src'' ''missing.xml''))"
  by (simp_all add: scenario_env_def scenario_env2_def os_path_join_def)

lemma scenario2_can_create: "can_create scenario_env2 ''out.hwpx''"
  by (simp add: scenario_env2_def)

text \<open>
  C8. Take two runs with the same manifest, source root and output path, on worlds that
  agree on whether the output can be created and, for every manifest entry, on what kind
  of object sits at its path; two runs on the very same tree are the first instance. The
  two archives have the same member names in the same order and the same compression
  method for each member; the events and the outcome agree as well. The bytes of the
  files play no part.
\<close>

theorem C8_structure_determined:
  assumes same: "\<forall>f\<in>set M. kind (tree e1 (os_path_join root f)) = kind (tree e2 (os_path_join root f))"
    and out: "can_create e1 out = can_create e2 out"
  shows "names (snd (rebuild e1 root out M)) = names (snd (rebuild e2 root out M)) \<and>
         layout (snd (rebuild e1 root out M)) = layout (snd (rebuild e2 root out M)) \<and>
         trace (snd (rebuild e1 root out M)) = trace (snd (rebuild e2 root out M)) \<and>
         fst (rebuild e1 root out M) = fst (rebuild e2 root out M)"
proof -
  have p: "present e1 root f = present e2 root f" if "f \<in> set M" for f
    using kind_None [of "tree e1 (os_path_join root f)" "tree e2 (os_path_join root f)"] same that
    by (simp add: present_def os_path_exists_def)
  have r: "readable e1 root f = readable e2 root f" if "f \<in> set M" for f
    using kind_Unreadable [of "tree e1 (os_path_join root f)" "tree e2 (os_path_join root f)"]
      same that
    by (simp add: readable_def)
  have pa: "passed e1 root M = passed e2 root M"
    unfolding passed_def using r by (intro takeWhile_cong) simp_all
  have fa: "failing e1 root M = failing e2 root M"
  proof -
    have "dropWhile (readable e1 root) M = dropWhile (readable e2 root) M"
      using r by (intro dropWhile_cong) simp_all
    then show ?thesis by (simp add: failing_def)
  qed
  have sub: "f \<in> set M" if "f \<in> set (passed e2 root M)" for f
    using that set_passed by blast
  have fi: "filter (present e1 root) (passed e2 root M) = filter (present e2 root) (passed e2 root M)"
    using p sub by (intro filter_cong) simp_all
  have ev: "map (entry_events e1 root) (passed e2 root M) = map (entry_events e2 root) (passed e2 root M)"
    using p sub by (intro map_cong) (simp_all add: entry_events_def)
  show ?thesis
    by (simp add: names_rebuild layout_rebuild rebuild_trace rebuild_fst out pa fa fi ev)
qed

theorem C8_structure_determined_witness:
  "kind (tree scenario_env (os_path_join ''src'' ''mimetype'')) =
     kind (tree scenario_env2 (os_path_join ''src'' ''mimetype'')) \<and>
   kind (tree scenario_env (os_path_join ''src'' ''a.xml'')) =
     kind (tree scenario_env2 (os_path_join ''src'' ''a.xml'')) \<and>
   kind (tree scenario_env (os_path_join ''src'' ''img.png'')) =
     kind (tree scenario_env2 (os_path_join ''src'' ''img.png'')) \<and>
   kind (tree scenario_env (os_path_join ''src'' ''missing.xml'')) =
     kind (tree scenario_env2 (os_path_join ''src'' ''missing.xml'')) \<and>
   can_create scenario_env ''out.hwpx'' = can_create scenario_env2 ''out.hwpx'' \<and>
   tree scenario_env ''src/a.xml'' \<noteq> tree scenario_env2 ''src/a.xml'' \<and>
   layout (snd (rebuild scenario_env ''src'' ''out.hwpx'' scenario_manifest)) =
     layout (snd (rebuild scenario_env2 ''src'' ''out.hwpx'' scenario_manifest)) \<and>
   layout (snd (rebuild scenario_env ''src'' ''out.hwpx'' scenario_manifest)) =
     [(''mimetype'', ZIP_STORED), (''a.xml'', ZIP_DEFLATED), (''img.png'', ZIP_STORED)]"
proof -
  have k: "\<forall>f\<in>set scenario_manifest.
      kind (tree scenario_env (os_path_join ''src'' f)) = kind (tree scenario_env2 (os_path_join ''src'' f))"
    by (simp add: scenario_manifest_def scenario_kinds)
  have c: "can_create scenario_env ''out.hwpx'' = can_create scenario_env2 ''out.hwpx''"
    by (simp add: scenario_can_create scenario2_can_create)
  have d: "tree scenario_env ''src/a.xml'' \<noteq> tree scenario_env2 ''src/a.xml''"
    by (simp add: scenario_env_def scenario_env2_def)
  have l: "layout (snd (rebuild scenario_env ''src'' ''out.hwpx'' scenario_manifest)) =
     [(''mimetype'', ZIP_STORED), (''a.xml'', ZIP_DEFLATED), (''img.png'', ZIP_STORED)]"
    unfolding scenario_run by (simp add: layout_def)
  have e: "layout (snd (rebuild scenario_env ''src'' ''out.hwpx'' scenario_manifest)) =
     layout (snd (rebuild scenario_env2 ''src'' ''out.hwpx'' scenario_manifest))"
    using C8_structure_determined [OF k c] by blast
  show ?thesis
    by (intro conjI scenario_kinds c d e l)
qed

subsection \<open>C9: the bytes of a member\<close>







subsection \<open>C10: what counts as present\<close>

lemma warning_entries:
  "Print (Warning f) \<in> set (concat (map (entry_events e root) fs)) \<Longrightarrow> \<not> present e root f"
  by (induction fs) (auto simp: entry_events_def split: if_splits)

lemma dir_tree: "tree dir_env (os_path_join ''src'' ''version.xml'') = Some Directory"
  by (simp add: dir_env_def os_path_join_def)

lemma dir_facts:
  "can_create dir_env ''out.hwpx''" "readable dir_env ''src'' ''mimetype''"
  by (simp_all add: dir_env_def readable_def os_path_join_def)

text \<open>
  C10. The presence test is existence alone. When anything at all sits at the path of a
  manifest entry, a directory for one, no run ever warns about that entry; the loop, on
  coming to the entry, calls \<open>zf.write\<close> for it first thing instead of skipping it, and for a
  directory reports it as added; and a run that reaches the entry (the archive could be
  opened and no earlier entry was unreadable) has that call in its trace.
\<close>

theorem C10_existence_test:
  assumes "tree e (os_path_join root f) = Some n"
  shows "Print (Warning f) \<notin> set (trace (snd (rebuild e root out M))) \<and>
         (\<exists>tr. trace (snd (add_entries e root (f # rest) st)) =
                  trace st @ WriteCall (os_path_join root f) f (compress_for f) # tr) \<and>
         (n = Directory \<longrightarrow>
            trace (snd (add_entries e root [f] st)) =
              trace st @ [WriteCall (os_path_join root f) f (compress_for f), Print (Added f)]) \<and>
         (can_create e out \<longrightarrow> M = pre @ f # post \<longrightarrow> (\<forall>g\<in>set pre. readable e root g) \<longrightarrow>
            WriteCall (os_path_join root f) f (compress_for f)
              \<in> set (trace (snd (rebuild e root out M))))"
proof (intro conjI impI)
  have pres: "present e root f"
    using assms by (simp add: present_def os_path_exists_def)
  show "Print (Warning f) \<notin> set (trace (snd (rebuild e root out M)))"
  proof
    assume "Print (Warning f) \<in> set (trace (snd (rebuild e root out M)))"
    then have "Print (Warning f) \<in> set (concat (map (entry_events e root) (passed e root M)))"
      by (auto simp: rebuild_trace split: if_splits option.splits)
    then have "\<not> present e root f" by (rule warning_entries)
    with pres show False by simp
  qed
  show "\<exists>tr. trace (snd (add_entries e root (f # rest) st)) =
                  trace st @ WriteCall (os_path_join root f) f (compress_for f) # tr"
  proof (cases "readable e root f")
    case True
    with pres have "passed e root (f # rest) = f # passed e root rest"
      by (simp add: passed_def)
    with pres show ?thesis
      by (simp add: add_entries_trace entry_events_def del: add_entries.simps)
  next
    case False
    then show ?thesis
      by (simp add: add_entries_unreadable emit_simps del: add_entries.simps)
  qed
  show "trace (snd (add_entries e root [f] st)) =
              trace st @ [WriteCall (os_path_join root f) f (compress_for f), Print (Added f)]"
    if "n = Directory"
  proof -
    have "readable e root f" using assms that by (simp add: readable_def)
    with pres show ?thesis
      by (simp add: add_entries_ok emit_def del: add_entries.simps(2))
  qed
  assume c: "can_create e out" and M: "M = pre @ f # post" and ok: "\<forall>g\<in>set pre. readable e root g"
  show "WriteCall (os_path_join root f) f (compress_for f)
              \<in> set (trace (snd (rebuild e root out M)))"
  proof (cases "readable e root f")
    case True
    with ok M have "f \<in> set (passed e root M)"
      by (simp add: passed_def takeWhile_append2)
    with pres c show ?thesis
      by (auto simp: rebuild_trace entry_events_def intro!: bexI [of _ f])
  next
    case False
    with ok M have "failing e root M = Some f"
      by (simp add: failing_def dropWhile_append2)
    with c show ?thesis by (simp add: rebuild_trace)
  qed
qed

theorem C10_existence_test_witness:
  "tree dir_env (os_path_join ''src'' ''version.xml'') = Some Directory \<and>
   can_create dir_env ''out.hwpx'' \<and> readable dir_env ''src'' ''mimetype'' \<and>
   Print (Warning ''version.xml'')
     \<notin> set (trace (snd (rebuild dir_env ''src'' ''out.hwpx'' [''mimetype'', ''version.xml'']))) \<and>
   WriteCall (os_path_join ''src'' ''version.xml'') ''version.xml'' (compress_for ''version.xml'')
     \<in> set (trace (snd (rebuild dir_env ''src'' ''out.hwpx'' [''mimetype'', ''version.xml'']))) \<and>
   trace (snd (add_entries dir_env ''src'' [''version.xml''] initial)) =
     trace initial @ [WriteCall (os_path_join ''src'' ''version.xml'') ''version.xml''
                        (compress_for ''version.xml''), Print (Added ''version.xml'')]"
proof -
  note t = C10_existence_test [OF dir_tree, of "''out.hwpx''" "[''mimetype'', ''version.xml'']" "[]"
      initial "[''mimetype'']" "[]"]
  have w: "Print (Warning ''version.xml'')
     \<notin> set (trace (snd (rebuild dir_env ''src'' ''out.hwpx'' [''mimetype'', ''version.xml''])))"
    using t by blast
  have d: "trace (snd (add_entries dir_env ''src'' [''version.xml''] initial)) =
     trace initial @ [WriteCall (os_path_join ''src'' ''version.xml'') ''version.xml''
                        (compress_for ''version.xml''), Print (Added ''version.xml'')]"
    using t by blast
  have c: "WriteCall (os_path_join ''src'' ''version.xml'') ''version.xml'' (compress_for ''version.xml'')
     \<in> set (trace (snd (rebuild dir_env ''src'' ''out.hwpx'' [''mimetype'', ''version.xml''])))"
    using t dir_facts by simp
  show ?thesis
    by (intro conjI dir_tree dir_facts w c d)
qed

end
